theory Spec2Isabelle
  imports Complex_Main "HOL-Library.Log_Nat"
begin


section \<open>Floating-point arithmetic of the sweep\<close>

text \<open>
  \<^verbatim>\<open>NDPSO.cpp\<close> computes with C++ \<^verbatim>\<open>float\<close> variables and \<^verbatim>\<open>double\<close> literals. A finite
  floating-point number is modelled by the rational it denotes, and an operation by the exact
  operation followed by rounding to nearest, ties to even, to the precision of its type:
  24 significant bits for \<^verbatim>\<open>float\<close>, 53 for \<^verbatim>\<open>double\<close>. The exponent range is not bounded:
  overflow to infinity, subnormal numbers and NaN are outside the model. Every number the
  parameter sweep computes lies between 0.1 and 1.1, where the model is exact.
\<close>

definition round_half_even :: "rat \<Rightarrow> int" where
  "round_half_even q =
     (let n = \<lfloor>q\<rfloor>; f = q - of_int n in
      if f < 1 / 2 then n else if 1 / 2 < f then n + 1 else if even n then n else n + 1)"

text \<open>The binary exponent of a non-zero rational: the \<open>e\<close> with \<open>2^e \<le> |x| < 2^(e+1)\<close>.\<close>

definition binary_exponent :: "rat \<Rightarrow> int" where
  "binary_exponent x =
     (let (a, b) = quotient_of \<bar>x\<bar>; k = bitlen a - bitlen b in
      if 2 powi k \<le> \<bar>x\<bar> then k else k - 1)"

definition round_to_precision :: "nat \<Rightarrow> rat \<Rightarrow> rat" where
  "round_to_precision p x =
     (if x = 0 then 0
      else let ulp = 2 powi (binary_exponent x - int p + 1)
           in of_int (round_half_even (x / ulp)) * ulp)"


definition to_float :: "rat \<Rightarrow> rat" where
  "to_float = round_to_precision 24"

text \<open>\<^verbatim>\<open>a * b\<close> and \<^verbatim>\<open>a / b\<close> on two \<^verbatim>\<open>float\<close> operands.\<close>

definition fmul :: "rat \<Rightarrow> rat \<Rightarrow> rat" where
  "fmul a b = to_float (a * b)"

definition fdiv :: "rat \<Rightarrow> rat \<Rightarrow> rat" where
  "fdiv a b = to_float (a / b)"


section \<open>Data model\<close>

text \<open>
  \<^verbatim>\<open>ProblemData\<close>, \<^verbatim>\<open>ProblemResults\<close> and \<^verbatim>\<open>Particle\<close> are declared in headers that are not
  part of the sources (\<^verbatim>\<open>NDPSO.h\<close>, \<^verbatim>\<open>Utils.h\<close>, \<^verbatim>\<open>Particle.h\<close>); the records below hold the
  members \<^verbatim>\<open>NDPSO.cpp\<close> reads and writes. \<^verbatim>\<open>type\<close> and \<^verbatim>\<open>objType\<close> are integral tags
  (\<^verbatim>\<open>objType\<close> is the operand of a \<^verbatim>\<open>switch\<close>). A fitness is an \<^verbatim>\<open>int\<close>, as the return type of
  \<^verbatim>\<open>NDPSO::calcObjective\<close>. A particle may own more state than its position and fitness
  (the field \<open>extra\<close>).
\<close>

record problemData =
  costs :: "int list list"
  numFacilities :: int
  numCustomers :: int
  type :: int
  objType :: int
  name :: string

record 'p particle =
  position :: "int list"
  fitness :: int
  extra :: 'p

text \<open>
  The six members of the braced initialiser at the end of \<^verbatim>\<open>NDPSO::optimize\<close>, in order:
  elapsed seconds, best fitness, best position, customer assignments, problem type,
  objective type.
\<close>

record problemResults =
  res_time :: rat
  res_fitness :: int
  res_position :: "int list"
  res_customerAssignments :: "int list"
  res_type :: int
  res_objType :: int

text \<open>The comparator object holds the objective type it was last configured with.\<close>

record comparator =
  cmp_objType :: int

text \<open>The members of an \<^verbatim>\<open>NDPSO\<close> object.\<close>

record 'p ndpso =
  swarmSize :: int
  social :: rat
  cognitive :: rat
  inertia :: rat
  initialInertia :: rat
  inertialDiscount :: rat
  maxIterations :: int
  data :: problemData
  comparator :: comparator
  swarm :: "'p particle list"

text \<open>
  An exception thrown with \<^verbatim>\<open>throw "..."\<close> carries its message. Dereferencing the
  past-the-end iterator of a vector is undefined behaviour in C++; the model gives it an
  outcome of its own, since no statement about the execution after it can be trusted.
\<close>

datatype error =
    Thrown string
  | PastTheEndDereference

text \<open>
  The calls that \<^verbatim>\<open>searchParameters\<close> and \<^verbatim>\<open>optimize\<close> make on collaborators whose effect
  is observable from outside: the three setters of the optimizer, the three methods of the
  listener, and the progress line written to \<^verbatim>\<open>cout\<close>. \<open>HandleAlgorithm\<close> records the
  optimizer object the listener is handed, as it is at the moment of the call.
\<close>

datatype 'p call =
    SetInertia rat
  | SetCognitive rat
  | SetSocial rat
  | HandleAlgorithm "'p ndpso" string int int
  | HandleParticle "'p particle" int
  | HandleResults problemResults
  | CoutDone int

text \<open>
  The world outside the optimizer object: \<open>ext\<close> is the state the absent collaborators
  read and change (the random number generator behind \<^verbatim>\<open>Particle\<close>, the processor clock),
  \<open>calls\<close> the log of the calls above, oldest first.
\<close>

record ('p, 'w) world =
  ext :: 'w
  calls :: "'p call list"

text \<open>
  What \<^verbatim>\<open>NDPSO.cpp\<close> uses and does not define is a parameter of the model:
  the two objective tags, \<^verbatim>\<open>CLOCKS_PER_SEC\<close>, the constructor and the \<^verbatim>\<open>update\<close> method of
  \<^verbatim>\<open>Particle\<close> (both receive the optimizer object: the constructor as its third argument,
  \<^verbatim>\<open>update\<close> through the pointer the particle keeps), the two strategies, \<^verbatim>\<open>clock()\<close>, and the
  effect of the three setters on the optimizer object.
\<close>

record ('p, 'w) env =
  MINIMIZE :: int
  MAXIMIZE :: int
  CLOCKS_PER_SEC :: int
  Particle_new :: "int \<Rightarrow> int \<Rightarrow> 'p ndpso \<Rightarrow> 'w \<Rightarrow> 'p particle \<times> 'w"
  Particle_update :: "'p ndpso \<Rightarrow> 'p particle \<Rightarrow> 'p particle \<Rightarrow> 'w \<Rightarrow> 'p particle \<times> 'w"
  AssignmentStrategy_assign :: "int list list \<Rightarrow> int list \<Rightarrow> int \<Rightarrow> int list"
  ObjectiveStrategy_calcObjective :: "int list list \<Rightarrow> int list \<Rightarrow> int \<Rightarrow> int"
  clock :: "'w \<Rightarrow> int \<times> 'w"
  setInertia :: "rat \<Rightarrow> 'p ndpso \<Rightarrow> 'p ndpso"
  setCognitive :: "rat \<Rightarrow> 'p ndpso \<Rightarrow> 'p ndpso"
  setSocial :: "rat \<Rightarrow> 'p ndpso \<Rightarrow> 'p ndpso"


section \<open>Collaborators modelled from the specification\<close>

text \<open>
  Modelled from the spec: \<^verbatim>\<open>Comparator::setType\<close> is not in the sources (the class
  \<^verbatim>\<open>Comparator\<close> is declared in a header that is absent). Section 4.1: the comparator is
  configured once per problem via \<^verbatim>\<open>setType(objType)\<close>.
\<close>

definition Comparator_setType :: "comparator \<Rightarrow> int \<Rightarrow> comparator" where
  "Comparator_setType c t = c\<lparr>cmp_objType := t\<rparr>"

text \<open>
  Modelled from the spec: the call operator of \<^verbatim>\<open>Comparator\<close> is not in the sources.
  Section 4.1: for MINIMIZE it prefers \<open>a\<close> over \<open>b\<close> iff \<open>a < b\<close>, for MAXIMIZE iff \<open>a > b\<close>;
  an unrecognized objective type is a configuration error, not a silent default.
\<close>

definition Comparator_call :: "('p, 'w) env \<Rightarrow> comparator \<Rightarrow> int \<Rightarrow> int \<Rightarrow> error + bool" where
  "Comparator_call env c a b =
     (if cmp_objType c = MINIMIZE env then Inr (a < b)
      else if cmp_objType c = MAXIMIZE env then Inr (a > b)
      else Inl (Thrown ''Comparator: unrecognized objType''))"

text \<open>
  Modelled from the spec: \<^verbatim>\<open>Particle::getCustomerAssignments\<close> is not in the sources.
  Section 4.4, step 3: the customer assignment is recomputed from the position by the
  assignment strategy, for the problem the owning optimizer holds.
\<close>

definition Particle_getCustomerAssignments ::
  "('p, 'w) env \<Rightarrow> 'p ndpso \<Rightarrow> 'p particle \<Rightarrow> int list" where
  "Particle_getCustomerAssignments env this p =
     AssignmentStrategy_assign env (costs (data this)) (position p) (type (data this))"


section \<open>Global-best selection\<close>

text \<open>
  \<^verbatim>\<open>std::min_element\<close> and \<^verbatim>\<open>std::max_element\<close> of the C++ standard library, on indices in
  place of iterators: the index \<open>length xs\<close> is the past-the-end iterator. Both return
  \<^verbatim>\<open>last\<close> on an empty range; \<^verbatim>\<open>min_element\<close> moves to an element only when it compares less
  than the current smallest, \<^verbatim>\<open>max_element\<close> only when the current largest compares less than it.
\<close>

function min_element_loop :: "('a \<Rightarrow> 'a \<Rightarrow> bool) \<Rightarrow> 'a list \<Rightarrow> nat \<Rightarrow> nat \<Rightarrow> nat" where
  "min_element_loop lt xs smallest first =
     (if first < length xs
      then min_element_loop lt xs
             (if lt (xs ! first) (xs ! smallest) then first else smallest) (first + 1)
      else smallest)"
  by pat_completeness auto
termination
  by (relation "measure (\<lambda>(lt, xs, smallest, first). length xs - first)") auto

definition min_element :: "('a \<Rightarrow> 'a \<Rightarrow> bool) \<Rightarrow> 'a list \<Rightarrow> nat" where
  "min_element lt xs = (if xs = [] then length xs else min_element_loop lt xs 0 1)"

function max_element_loop :: "('a \<Rightarrow> 'a \<Rightarrow> bool) \<Rightarrow> 'a list \<Rightarrow> nat \<Rightarrow> nat \<Rightarrow> nat" where
  "max_element_loop lt xs largest first =
     (if first < length xs
      then max_element_loop lt xs
             (if lt (xs ! largest) (xs ! first) then first else largest) (first + 1)
      else largest)"
  by pat_completeness auto
termination
  by (relation "measure (\<lambda>(lt, xs, largest, first). length xs - first)") auto

definition max_element :: "('a \<Rightarrow> 'a \<Rightarrow> bool) \<Rightarrow> 'a list \<Rightarrow> nat" where
  "max_element lt xs = (if xs = [] then length xs else max_element_loop lt xs 0 1)"

text \<open>\<^verbatim>\<open>*it\<close> on an iterator of the vector \<open>xs\<close>.\<close>

definition deref :: "'a list \<Rightarrow> nat \<Rightarrow> error + 'a" where
  "deref xs i = (if i < length xs then Inr (xs ! i) else Inl PastTheEndDereference)"

text \<open>The function object \<^verbatim>\<open>minFitness\<close>.\<close>

definition minFitness :: "'p particle \<Rightarrow> 'p particle \<Rightarrow> bool" where
  "minFitness left right = (fitness left < fitness right)"

text \<open>\<^verbatim>\<open>NDPSO::getGlobalBest\<close>: the particle is returned by value.\<close>

definition getGlobalBest :: "('p, 'w) env \<Rightarrow> 'p ndpso \<Rightarrow> error + 'p particle" where
  "getGlobalBest env this =
     (if objType (data this) = MINIMIZE env
        then deref (swarm this) (min_element minFitness (swarm this))
      else if objType (data this) = MAXIMIZE env
        then deref (swarm this) (max_element minFitness (swarm this))
      else Inl (Thrown ''NDPSO::getGlobalBest(): unrecognized this->data.objType!''))"


section \<open>Objective of a facilities vector\<close>

text \<open>\<^verbatim>\<open>NDPSO::calcObjective\<close>.\<close>

definition calcObjective :: "('p, 'w) env \<Rightarrow> 'p ndpso \<Rightarrow> int list \<Rightarrow> int" where
  "calcObjective env this facilities =
     (let customerAssignments =
            AssignmentStrategy_assign env (costs (data this)) facilities (type (data this))
      in ObjectiveStrategy_calcObjective env (costs (data this)) customerAssignments
           (type (data this)))"

text \<open>
  The reading of the specification's section 4.5 together with section 6, where the
  objective strategy is handed the objective type: the same composition with \<^verbatim>\<open>objType\<close> as
  third argument. It is compared with \<open>calcObjective\<close> below.
\<close>

definition calcObjective_with_objType :: "('p, 'w) env \<Rightarrow> 'p ndpso \<Rightarrow> int list \<Rightarrow> int" where
  "calcObjective_with_objType env this facilities =
     ObjectiveStrategy_calcObjective env (costs (data this))
       (AssignmentStrategy_assign env (costs (data this)) facilities (type (data this)))
       (objType (data this))"


section \<open>Swarm initialisation\<close>

text \<open>
  The loop of \<^verbatim>\<open>NDPSO::initSwarm\<close>: \<^verbatim>\<open>for (int i = 0; i < this->swarmSize; i++)\<close>, each
  round constructing a particle and appending a copy of it to the swarm.
\<close>

function initSwarm_loop ::
  "('p, 'w) env \<Rightarrow> int \<Rightarrow> int \<Rightarrow> int \<Rightarrow> 'p ndpso \<Rightarrow> 'w \<Rightarrow> 'p ndpso \<times> 'w" where
  "initSwarm_loop env numDimensions possibleFacs i this x =
     (if i < swarmSize this then
        (let (particle, x') = Particle_new env numDimensions possibleFacs this x
         in initSwarm_loop env numDimensions possibleFacs (i + 1)
              (this\<lparr>swarm := swarm this @ [particle]\<rparr>) x')
      else (this, x))"
  by pat_completeness auto
termination
  by (relation "measure (\<lambda>(env, numDimensions, possibleFacs, i, this, x). nat (swarmSize this - i))")
     auto

definition initSwarm :: "('p, 'w) env \<Rightarrow> 'p ndpso \<Rightarrow> 'w \<Rightarrow> 'p ndpso \<times> 'w" where
  "initSwarm env this x =
     (let this1 = (if length (swarm this) > 0 then this\<lparr>swarm := []\<rparr> else this);
          numDimensions = numFacilities (data this1);
          possibleFacs = numCustomers (data this1)
      in initSwarm_loop env numDimensions possibleFacs 0 this1 x)"


section \<open>The optimizer\<close>

text \<open>
  \<^verbatim>\<open>for (Particle &particle : this->swarm) particle.update(gBest);\<close> The particles are
  updated in place and in swarm order, so an \<^verbatim>\<open>update\<close> finds the particles before it already
  moved: \<open>moved\<close> are the particles updated so far, \<open>p # rest\<close> those still to come.
\<close>

fun updateSwarm ::
  "('p, 'w) env \<Rightarrow> 'p ndpso \<Rightarrow> 'p particle \<Rightarrow> 'p particle list \<Rightarrow> 'p particle list \<Rightarrow> 'w
     \<Rightarrow> 'p particle list \<times> 'w" where
  "updateSwarm env this gBest moved [] x = (moved, x)"
| "updateSwarm env this gBest moved (p # rest) x =
     (let (p', x') = Particle_update env (this\<lparr>swarm := moved @ p # rest\<rparr>) p gBest x
      in updateSwarm env this gBest (moved @ [p']) rest x')"

text \<open>
  The loop of \<^verbatim>\<open>NDPSO::optimize\<close>, entered with \<open>count = 1\<close>. An exception leaves the loop
  with the state reached; a normal exit returns the optimizer, both best particles and the
  world. \<^verbatim>\<open>count\<close> is an unbounded integer: the overflow of \<^verbatim>\<open>count++\<close> at
  \<^verbatim>\<open>maxIterations = INT_MAX\<close> is outside the model.
\<close>

function iterate ::
  "('p, 'w) env \<Rightarrow> int \<Rightarrow> 'p ndpso \<Rightarrow> 'p particle \<Rightarrow> 'p particle \<Rightarrow> ('p, 'w) world
     \<Rightarrow> (error \<times> 'p ndpso \<times> ('p, 'w) world)
        + ('p ndpso \<times> 'p particle \<times> 'p particle \<times> ('p, 'w) world)" where
  "iterate env count this gBest uBest w =
     (if count \<le> maxIterations this then
        (let this1 = this\<lparr>inertia := fmul (inertia this) (inertialDiscount this)\<rparr>;
             (swarm', x') = updateSwarm env this1 gBest [] (swarm this1) (ext w);
             this2 = this1\<lparr>swarm := swarm'\<rparr>;
             w1 = w\<lparr>ext := x'\<rparr>
         in case getGlobalBest env this2 of
              Inl e \<Rightarrow> Inl (e, this2, w1)
            | Inr gBest' \<Rightarrow>
               (case Comparator_call env (comparator this2) (fitness gBest') (fitness uBest) of
                  Inl e \<Rightarrow> Inl (e, this2, w1)
                | Inr preferred \<Rightarrow>
                   (let uBest' = (if preferred then gBest' else uBest);
                        w2 = w1\<lparr>calls := calls w1 @ [HandleParticle uBest' count]\<rparr>
                    in iterate env (count + 1) this2 gBest' uBest' w2)))
      else Inr (this, gBest, uBest, w))"
  by pat_completeness auto
termination
  by (relation "measure (\<lambda>(env, count, this, gBest, uBest, w). nat (maxIterations this + 1 - count))")
     auto

text \<open>
  \<^verbatim>\<open>NDPSO::optimize\<close>. The result is the \<^verbatim>\<open>ProblemResults\<close> together with the optimizer
  object and the world as the call leaves them; an exception carries the state it leaves.
\<close>

definition optimize ::
  "('p, 'w) env \<Rightarrow> 'p ndpso \<Rightarrow> problemData \<Rightarrow> ('p, 'w) world
     \<Rightarrow> (error \<times> 'p ndpso \<times> ('p, 'w) world)
        + (problemResults \<times> 'p ndpso \<times> ('p, 'w) world)" where
  "optimize env this0 d w0 =
     (let this1 = this0\<lparr>data := d\<rparr>;
          this2 = this1\<lparr>comparator := Comparator_setType (comparator this1) (objType d)\<rparr>;
          (this3, x1) = initSwarm env this2 (ext w0);
          w1 = w0\<lparr>ext := x1\<rparr>
      in case getGlobalBest env this3 of
           Inl e \<Rightarrow> Inl (e, this3, w1)
         | Inr gBest \<Rightarrow>
            (let uBest = gBest;
                 this4 = this3\<lparr>inertia := initialInertia this3\<rparr>;
                 (t0, x2) = clock env (ext w1);
                 w2 = w1\<lparr>ext := x2\<rparr>
             in case iterate env 1 this4 gBest uBest w2 of
                  Inl failure \<Rightarrow> Inl failure
                | Inr (this5, gBest', uBest', w3) \<Rightarrow>
                   (let (t1, x4) = clock env (ext w3);
                        results =
                          \<lparr> res_time = fdiv (to_float (of_int (t1 - t0)))
                                         (to_float (of_int (CLOCKS_PER_SEC env))),
                            res_fitness = fitness uBest',
                            res_position = position uBest',
                            res_customerAssignments =
                              Particle_getCustomerAssignments env this5 uBest',
                            res_type = type d,
                            res_objType = objType d \<rparr>
                    in Inr (results, this5, w3\<lparr>ext := x4\<rparr>))))"


section \<open>The parameter sweep\<close>

text \<open>
  The body of the innermost loop of \<^verbatim>\<open>NDPSO::searchParameters\<close>: one trial. The state of
  the sweep is the optimizer object, the world and the local counter \<^verbatim>\<open>done\<close>.
\<close>

definition trial ::
  "('p, 'w) env \<Rightarrow> problemData \<Rightarrow> 'p ndpso \<times> ('p, 'w) world \<times> int
     \<Rightarrow> (error \<times> 'p ndpso \<times> ('p, 'w) world) + ('p ndpso \<times> ('p, 'w) world \<times> int)" where
  "trial env d s =
     (case s of (this, w, done) \<Rightarrow>
        (let w1 = w\<lparr>calls := calls w @ [HandleAlgorithm this (name d) (type d) (objType d)]\<rparr>
         in case optimize env this d w1 of
              Inl failure \<Rightarrow> Inl failure
            | Inr (results, this', w2) \<Rightarrow>
                Inr (this', w2\<lparr>calls := calls w2 @ [HandleResults results]\<rparr>, done + 1)))"

text \<open>\<^verbatim>\<open>for (int i = 0; i < 10; i++)\<close>, entered with \<open>i = 0\<close>.\<close>

function trials ::
  "('p, 'w) env \<Rightarrow> problemData \<Rightarrow> int \<Rightarrow> 'p ndpso \<times> ('p, 'w) world \<times> int
     \<Rightarrow> (error \<times> 'p ndpso \<times> ('p, 'w) world) + ('p ndpso \<times> ('p, 'w) world \<times> int)" where
  "trials env d i s =
     (if i < 10 then
        (case trial env d s of
           Inl failure \<Rightarrow> Inl failure
         | Inr s' \<Rightarrow> trials env d (i + 1) s')
      else Inr s)"
  by pat_completeness auto
termination
  by (relation "measure (\<lambda>(env, d, i, s). nat (10 - i))") auto



section \<open>Auxiliary definitions\<close>

text \<open>
  The first three statements of \<open>optimize\<close>: bind the problem, configure the comparator,
  initialise the swarm. The initial global best is selected from the optimizer this returns.
\<close>

definition optimize_setup ::
  "('p, 'w) env \<Rightarrow> 'p ndpso \<Rightarrow> problemData \<Rightarrow> 'w \<Rightarrow> 'p ndpso \<times> 'w" where
  "optimize_setup env this d x =
     initSwarm env
       (this\<lparr>data := d, comparator := Comparator_setType (comparator this) (objType d)\<rparr>) x"

text \<open>
  One pass through the body of the loop of \<open>optimize\<close>, as written in \<open>iterate\<close>; the
  lemma \<open>iterate_unfold\<close> below shows that the loop is this pass repeated.
\<close>

definition iteration ::
  "('p, 'w) env \<Rightarrow> int \<Rightarrow> 'p ndpso \<Rightarrow> 'p particle \<Rightarrow> 'p particle \<Rightarrow> ('p, 'w) world
     \<Rightarrow> (error \<times> 'p ndpso \<times> ('p, 'w) world)
        + ('p ndpso \<times> 'p particle \<times> 'p particle \<times> ('p, 'w) world)" where
  "iteration env count this gBest uBest w =
     (let this1 = this\<lparr>inertia := fmul (inertia this) (inertialDiscount this)\<rparr>;
          (swarm', x') = updateSwarm env this1 gBest [] (swarm this1) (ext w);
          this2 = this1\<lparr>swarm := swarm'\<rparr>;
          w1 = w\<lparr>ext := x'\<rparr>
      in case getGlobalBest env this2 of
           Inl e \<Rightarrow> Inl (e, this2, w1)
         | Inr gBest' \<Rightarrow>
            (case Comparator_call env (comparator this2) (fitness gBest') (fitness uBest) of
               Inl e \<Rightarrow> Inl (e, this2, w1)
             | Inr preferred \<Rightarrow>
                (let uBest' = (if preferred then gBest' else uBest);
                     w2 = w1\<lparr>calls := calls w1 @ [HandleParticle uBest' count]\<rparr>
                 in Inr (this2, gBest', uBest', w2))))"


text \<open>
  The inertia after \<open>k\<close> decays of a start value \<open>v\<close> by the discount \<open>d\<close>: the product
  \<open>v * d * ... * d\<close> with \<open>k\<close> factors \<open>d\<close>, multiplied from the left with the multiplication
  \<open>mul\<close>. With the exact product this is \<open>v * d ^ k\<close> (lemma \<open>decay_by_exact\<close>); the code
  multiplies \<^verbatim>\<open>float\<close>s, so each product is rounded.
\<close>

definition decay_by :: "(rat \<Rightarrow> rat \<Rightarrow> rat) \<Rightarrow> rat \<Rightarrow> rat \<Rightarrow> nat \<Rightarrow> rat" where
  "decay_by mul v d k = ((\<lambda>a. mul a d) ^^ k) v"

definition decayed :: "'p ndpso \<Rightarrow> nat \<Rightarrow> rat" where
  "decayed this k = decay_by fmul (initialInertia this) (inertialDiscount this) k"









text \<open>
  The outline of a call log keeps the setter calls with their argument and, of every trial,
  that it began (\<open>handleAlgorithm\<close>, right before \<open>optimize\<close> is called) and that it ended
  (\<open>handleResults\<close>, right after \<open>optimize\<close> returned).
\<close>

datatype sweep_step =
    InertiaSet rat
  | CognitiveSet rat
  | SocialSet rat
  | TrialBegun
  | TrialEnded

fun outline_of :: "'p call \<Rightarrow> sweep_step list" where
  "outline_of (SetInertia c) = [InertiaSet c]"
| "outline_of (SetCognitive c) = [CognitiveSet c]"
| "outline_of (SetSocial c) = [SocialSet c]"
| "outline_of (HandleAlgorithm this n t ot) = [TrialBegun]"
| "outline_of (HandleResults r) = [TrialEnded]"
| "outline_of (HandleParticle p k) = []"
| "outline_of (CoutDone n) = []"

definition outline :: "'p call list \<Rightarrow> sweep_step list" where
  "outline cs = concat (map outline_of cs)"







section \<open>A concrete configuration\<close>

text \<open>
  A small environment, problem, optimizer and world on which the definitions can be
  evaluated. The optimizer starts with a populated swarm, as a previous run leaves it.
\<close>

definition example_env :: "(unit, nat) env" where
  "example_env =
     \<lparr> MINIMIZE = 0, MAXIMIZE = 1, CLOCKS_PER_SEC = 1000000,
       Particle_new = (\<lambda>n m this x.
          (\<lparr> position = replicate (nat n) (int x mod m), fitness = (2 * int x) mod 5,
             extra = () \<rparr>, x + 1)),
       Particle_update = (\<lambda>this p g x.
          (p\<lparr> position := position g, fitness := fitness g + 1 - int x mod 3 \<rparr>, x + 1)),
       AssignmentStrategy_assign = (\<lambda>c facilities t. map (\<lambda>f. f + t) facilities),
       ObjectiveStrategy_calcObjective = (\<lambda>c assignment t. sum_list assignment + t),
       clock = (\<lambda>x. (int x, x + 1)),
       setInertia = (\<lambda>c this. this\<lparr>inertia := c, initialInertia := c\<rparr>),
       setCognitive = (\<lambda>c this. this\<lparr>cognitive := c\<rparr>),
       setSocial = (\<lambda>c this. this\<lparr>social := c\<rparr>) \<rparr>"

definition example_data :: problemData where
  "example_data =
     \<lparr> costs = [[1, 2], [3, 4], [5, 6]], numFacilities = 2, numCustomers = 3,
       type = 7, objType = 0, name = ''example'' \<rparr>"

definition example_swarm :: "unit particle list" where
  "example_swarm =
     [\<lparr> position = [0], fitness = 5, extra = () \<rparr>,
      \<lparr> position = [1], fitness = 3, extra = () \<rparr>,
      \<lparr> position = [2], fitness = 3, extra = () \<rparr>,
      \<lparr> position = [3], fitness = 7, extra = () \<rparr>,
      \<lparr> position = [4], fitness = 7, extra = () \<rparr>]"

definition example_optimizer :: "unit ndpso" where
  "example_optimizer =
     \<lparr> swarmSize = 3, social = 1 / 2, cognitive = 1 / 2, inertia = 1 / 4,
       initialInertia = 1 / 2, inertialDiscount = 3 / 4, maxIterations = 2,
       data = example_data, comparator = \<lparr> cmp_objType = 0 \<rparr>, swarm = example_swarm \<rparr>"

definition example_world :: "(unit, nat) world" where
  "example_world = \<lparr> ext = 0, calls = [] \<rparr>"


section \<open>Properties of the selection loops\<close>

declare min_element_loop.simps [simp del] max_element_loop.simps [simp del]

lemma min_element_loop_first_least:
  fixes key :: "'a \<Rightarrow> int"
  assumes "\<And>a b. lt a b = (key a < key b)"
    and "smallest < first" and "first \<le> length xs"
    and "\<forall>j<first. key (xs ! smallest) \<le> key (xs ! j)"
    and "\<forall>j<smallest. key (xs ! smallest) < key (xs ! j)"
  shows "min_element_loop lt xs smallest first < length xs \<and>
         (\<forall>j<length xs. key (xs ! min_element_loop lt xs smallest first) \<le> key (xs ! j)) \<and>
         (\<forall>j<min_element_loop lt xs smallest first.
             key (xs ! min_element_loop lt xs smallest first) < key (xs ! j))"
  using assms
proof (induction lt xs smallest first rule: min_element_loop.induct)
  case (1 lt xs smallest first)
  show ?case
  proof (cases "first < length xs")
    case False
    then have eq: "min_element_loop lt xs smallest first = smallest"
      by (subst min_element_loop.simps) simp
    from False "1.prems"(2-5) show ?thesis
      unfolding eq by simp
  next
    case True
    let ?s = "if lt (xs ! first) (xs ! smallest) then first else smallest"
    have a: "?s < first + 1" using "1.prems" by simp
    have b: "first + 1 \<le> length xs" using True by simp
    have c: "\<forall>j<first + 1. key (xs ! ?s) \<le> key (xs ! j)"
    proof (intro allI impI)
      fix j assume "j < first + 1"
      then consider "j < first" | "j = first" by linarith
      then show "key (xs ! ?s) \<le> key (xs ! j)"
        using "1.prems"(1,4) by cases (auto simp: not_less)
    qed
    have d: "\<forall>j< ?s. key (xs ! ?s) < key (xs ! j)"
    proof (intro allI impI)
      fix j assume j: "j < ?s"
      show "key (xs ! ?s) < key (xs ! j)"
      proof (cases "lt (xs ! first) (xs ! smallest)")
        case True
        then have "j < first" using j by simp
        then have "key (xs ! smallest) \<le> key (xs ! j)" using "1.prems"(4) by simp
        with True "1.prems"(1) show ?thesis by simp
      next
        case False
        then show ?thesis using j "1.prems"(5) by simp
      qed
    qed
    have eq: "min_element_loop lt xs smallest first = min_element_loop lt xs ?s (first + 1)"
      using True by (subst min_element_loop.simps) simp
    from "1.IH" [OF True "1.prems"(1) a b c d] show ?thesis
      unfolding eq .
  qed
qed

lemma max_element_loop_first_greatest:
  fixes key :: "'a \<Rightarrow> int"
  assumes "\<And>a b. lt a b = (key a < key b)"
    and "largest < first" and "first \<le> length xs"
    and "\<forall>j<first. key (xs ! j) \<le> key (xs ! largest)"
    and "\<forall>j<largest. key (xs ! j) < key (xs ! largest)"
  shows "max_element_loop lt xs largest first < length xs \<and>
         (\<forall>j<length xs. key (xs ! j) \<le> key (xs ! max_element_loop lt xs largest first)) \<and>
         (\<forall>j<max_element_loop lt xs largest first.
             key (xs ! j) < key (xs ! max_element_loop lt xs largest first))"
  using assms
proof (induction lt xs largest first rule: max_element_loop.induct)
  case (1 lt xs largest first)
  show ?case
  proof (cases "first < length xs")
    case False
    then have eq: "max_element_loop lt xs largest first = largest"
      by (subst max_element_loop.simps) simp
    from False "1.prems"(2-5) show ?thesis
      unfolding eq by simp
  next
    case True
    let ?s = "if lt (xs ! largest) (xs ! first) then first else largest"
    have a: "?s < first + 1" using "1.prems" by simp
    have b: "first + 1 \<le> length xs" using True by simp
    have c: "\<forall>j<first + 1. key (xs ! j) \<le> key (xs ! ?s)"
    proof (intro allI impI)
      fix j assume "j < first + 1"
      then consider "j < first" | "j = first" by linarith
      then show "key (xs ! j) \<le> key (xs ! ?s)"
      proof cases
        case 1
        then have "key (xs ! j) \<le> key (xs ! largest)" using "1.prems"(4) by simp
        then show ?thesis using "1.prems"(1) by auto
      next
        case 2
        then show ?thesis using "1.prems"(1) by (auto simp: not_less)
      qed
    qed
    have d: "\<forall>j< ?s. key (xs ! j) < key (xs ! ?s)"
    proof (intro allI impI)
      fix j assume j: "j < ?s"
      show "key (xs ! j) < key (xs ! ?s)"
      proof (cases "lt (xs ! largest) (xs ! first)")
        case True
        then have "j < first" using j by simp
        then have "key (xs ! j) \<le> key (xs ! largest)" using "1.prems"(4) by simp
        with True "1.prems"(1) show ?thesis by simp
      next
        case False
        then show ?thesis using j "1.prems"(5) by simp
      qed
    qed
    have eq: "max_element_loop lt xs largest first = max_element_loop lt xs ?s (first + 1)"
      using True by (subst max_element_loop.simps) simp
    from "1.IH" [OF True "1.prems"(1) a b c d] show ?thesis
      unfolding eq .
  qed
qed

lemma min_element_first_least:
  assumes "ps \<noteq> []"
  shows "min_element minFitness ps < length ps \<and>
         (\<forall>j<length ps. fitness (ps ! min_element minFitness ps) \<le> fitness (ps ! j)) \<and>
         (\<forall>j<min_element minFitness ps.
             fitness (ps ! min_element minFitness ps) < fitness (ps ! j))"
proof -
  have len: "1 \<le> length ps" using assms by (cases ps) simp_all
  have "min_element_loop minFitness ps 0 1 < length ps \<and>
         (\<forall>j<length ps. fitness (ps ! min_element_loop minFitness ps 0 1) \<le> fitness (ps ! j)) \<and>
         (\<forall>j<min_element_loop minFitness ps 0 1.
             fitness (ps ! min_element_loop minFitness ps 0 1) < fitness (ps ! j))"
    by (rule min_element_loop_first_least [where key = fitness])
       (use len in \<open>simp_all add: minFitness_def\<close>)
  then show ?thesis using assms by (simp add: min_element_def)
qed

lemma max_element_first_greatest:
  assumes "ps \<noteq> []"
  shows "max_element minFitness ps < length ps \<and>
         (\<forall>j<length ps. fitness (ps ! j) \<le> fitness (ps ! max_element minFitness ps)) \<and>
         (\<forall>j<max_element minFitness ps.
             fitness (ps ! j) < fitness (ps ! max_element minFitness ps))"
proof -
  have len: "1 \<le> length ps" using assms by (cases ps) simp_all
  have "max_element_loop minFitness ps 0 1 < length ps \<and>
         (\<forall>j<length ps. fitness (ps ! j) \<le> fitness (ps ! max_element_loop minFitness ps 0 1)) \<and>
         (\<forall>j<max_element_loop minFitness ps 0 1.
             fitness (ps ! j) < fitness (ps ! max_element_loop minFitness ps 0 1))"
    by (rule max_element_loop_first_greatest [where key = fitness])
       (use len in \<open>simp_all add: minFitness_def\<close>)
  then show ?thesis using assms by (simp add: max_element_def)
qed

section \<open>Properties of swarm initialisation\<close>

declare initSwarm_loop.simps [simp del]

lemma initSwarm_loop_frame:
  "fst (initSwarm_loop env nd pf i this x) =
     this\<lparr>swarm := swarm (fst (initSwarm_loop env nd pf i this x))\<rparr>"
proof (induction env nd pf i this x rule: initSwarm_loop.induct)
  case (1 env nd pf i this x)
  show ?case
  proof (cases "i < swarmSize this")
    case False
    then show ?thesis by (subst (1 2) initSwarm_loop.simps) simp
  next
    case True
    obtain p x' where px: "Particle_new env nd pf this x = (p, x')"
      by (cases "Particle_new env nd pf this x")
    have eq: "initSwarm_loop env nd pf i this x =
                initSwarm_loop env nd pf (i + 1) (this\<lparr>swarm := swarm this @ [p]\<rparr>) x'"
      using True px by (subst initSwarm_loop.simps) simp
    from "1.IH" [OF True px [symmetric] refl] show ?thesis
      unfolding eq by (metis ndpso.update_convs(10) ndpso.surjective)
  qed
qed

lemma initSwarm_loop_length:
  "length (swarm (fst (initSwarm_loop env nd pf i this x))) =
     length (swarm this) + nat (swarmSize this - i)"
proof (induction env nd pf i this x rule: initSwarm_loop.induct)
  case (1 env nd pf i this x)
  show ?case
  proof (cases "i < swarmSize this")
    case False
    then show ?thesis by (subst initSwarm_loop.simps) simp
  next
    case True
    obtain p x' where px: "Particle_new env nd pf this x = (p, x')"
      by (cases "Particle_new env nd pf this x")
    have eq: "initSwarm_loop env nd pf i this x =
                initSwarm_loop env nd pf (i + 1) (this\<lparr>swarm := swarm this @ [p]\<rparr>) x'"
      using True px by (subst initSwarm_loop.simps) simp
    from "1.IH" [OF True px [symmetric] refl] True show ?thesis
      unfolding eq by simp
  qed
qed

lemma initSwarm_loop_particles:
  assumes "p \<in> set (swarm (fst (initSwarm_loop env nd pf i this x)))"
  shows "p \<in> set (swarm this) \<or> (\<exists>t y. p = fst (Particle_new env nd pf t y))"
  using assms
proof (induction env nd pf i this x rule: initSwarm_loop.induct)
  case (1 env nd pf i this x)
  show ?case
  proof (cases "i < swarmSize this")
    case False
    with "1.prems" show ?thesis by (subst (asm) initSwarm_loop.simps) simp
  next
    case True
    obtain q x' where px: "Particle_new env nd pf this x = (q, x')"
      by (cases "Particle_new env nd pf this x")
    have eq: "initSwarm_loop env nd pf i this x =
                initSwarm_loop env nd pf (i + 1) (this\<lparr>swarm := swarm this @ [q]\<rparr>) x'"
      using True px by (subst initSwarm_loop.simps) simp
    from "1.prems" have "p \<in> set (swarm (this\<lparr>swarm := swarm this @ [q]\<rparr>)) \<or>
        (\<exists>t y. p = fst (Particle_new env nd pf t y))"
      unfolding eq by (rule "1.IH" [OF True px [symmetric] refl])
    then show ?thesis
    proof
      assume "p \<in> set (swarm (this\<lparr>swarm := swarm this @ [q]\<rparr>))"
      then have "p \<in> set (swarm this) \<or> p = q" by auto
      then show ?thesis
      proof
        assume "p = q"
        then have "p = fst (Particle_new env nd pf this x)" using px by simp
        then show ?thesis by blast
      qed simp
    qed simp
  qed
qed

lemma initSwarm_frame:
  "fst (initSwarm env this x) = this\<lparr>swarm := swarm (fst (initSwarm env this x))\<rparr>"
proof -
  let ?t = "if length (swarm this) > 0 then this\<lparr>swarm := []\<rparr> else this"
  have "fst (initSwarm env this x) =
          ?t\<lparr>swarm := swarm (fst (initSwarm env this x))\<rparr>"
    unfolding initSwarm_def Let_def by (rule initSwarm_loop_frame)
  then show ?thesis by (simp split: if_splits)
qed

lemma initSwarm_length:
  "length (swarm (fst (initSwarm env this x))) = nat (swarmSize this)"
  by (simp add: initSwarm_def Let_def initSwarm_loop_length)

lemma initSwarm_particles:
  assumes "p \<in> set (swarm (fst (initSwarm env this x)))"
  shows "\<exists>t y. p = fst (Particle_new env (numFacilities (data this)) (numCustomers (data this)) t y)"
proof -
  let ?t = "if length (swarm this) > 0 then this\<lparr>swarm := []\<rparr> else this"
  have "p \<in> set (swarm (fst (initSwarm_loop env (numFacilities (data ?t)) (numCustomers (data ?t)) 0 ?t x)))"
    using assms by (simp add: initSwarm_def Let_def)
  from initSwarm_loop_particles [OF this] show ?thesis
    by (auto split: if_splits)
qed

lemma initSwarm_data [simp]: "data (fst (initSwarm env this x)) = data this"
  by (subst initSwarm_frame) simp

section \<open>Global-best selection returns the first extremal particle\<close>

text \<open>
  Claim C10. On a non-empty swarm \<open>getGlobalBest\<close> returns a copy of the first particle of
  minimal fitness when the objective type is MINIMIZE, and of the first particle of maximal
  fitness when it is MAXIMIZE: the particle at an index \<open>i\<close> whose fitness no particle beats
  and every particle before \<open>i\<close> misses strictly.
\<close>

theorem getGlobalBest_first_extremal:
  assumes "swarm this \<noteq> []"
  shows "(objType (data this) = MINIMIZE env \<longrightarrow>
            (\<exists>i<length (swarm this).
               getGlobalBest env this = Inr (swarm this ! i) \<and>
               (\<forall>j<length (swarm this). fitness (swarm this ! i) \<le> fitness (swarm this ! j)) \<and>
               (\<forall>j<i. fitness (swarm this ! i) < fitness (swarm this ! j)))) \<and>
         (objType (data this) = MAXIMIZE env \<and> MAXIMIZE env \<noteq> MINIMIZE env \<longrightarrow>
            (\<exists>i<length (swarm this).
               getGlobalBest env this = Inr (swarm this ! i) \<and>
               (\<forall>j<length (swarm this). fitness (swarm this ! j) \<le> fitness (swarm this ! i)) \<and>
               (\<forall>j<i. fitness (swarm this ! j) < fitness (swarm this ! i))))"
proof (intro conjI impI)
  assume "objType (data this) = MINIMIZE env"
  then have "getGlobalBest env this =
      Inr (swarm this ! min_element minFitness (swarm this))"
    using min_element_first_least [OF assms] by (simp add: getGlobalBest_def deref_def)
  with min_element_first_least [OF assms]
  show "\<exists>i<length (swarm this).
               getGlobalBest env this = Inr (swarm this ! i) \<and>
               (\<forall>j<length (swarm this). fitness (swarm this ! i) \<le> fitness (swarm this ! j)) \<and>
               (\<forall>j<i. fitness (swarm this ! i) < fitness (swarm this ! j))"
    by blast
next
  assume "objType (data this) = MAXIMIZE env \<and> MAXIMIZE env \<noteq> MINIMIZE env"
  then have "getGlobalBest env this =
      Inr (swarm this ! max_element minFitness (swarm this))"
    using max_element_first_greatest [OF assms] by (simp add: getGlobalBest_def deref_def)
  with max_element_first_greatest [OF assms]
  show "\<exists>i<length (swarm this).
               getGlobalBest env this = Inr (swarm this ! i) \<and>
               (\<forall>j<length (swarm this). fitness (swarm this ! j) \<le> fitness (swarm this ! i)) \<and>
               (\<forall>j<i. fitness (swarm this ! j) < fitness (swarm this ! i))"
    by blast
qed

lemma example_swarm_nth:
  "example_swarm ! 0 = \<lparr> position = [0], fitness = 5, extra = () \<rparr>"
  "example_swarm ! 1 = \<lparr> position = [1], fitness = 3, extra = () \<rparr>"
  "example_swarm ! 2 = \<lparr> position = [2], fitness = 3, extra = () \<rparr>"
  "example_swarm ! 3 = \<lparr> position = [3], fitness = 7, extra = () \<rparr>"
  "example_swarm ! 4 = \<lparr> position = [4], fitness = 7, extra = () \<rparr>"
  "length example_swarm = 5"
  "example_swarm ! Suc 0 = \<lparr> position = [1], fitness = 3, extra = () \<rparr>"
  by (simp_all add: example_swarm_def)

lemma less_5_cases: "i < (5::nat) \<Longrightarrow> i = 0 \<or> i = 1 \<or> i = 2 \<or> i = 3 \<or> i = 4"
  by arith

theorem getGlobalBest_first_extremal_witness:
  "swarm example_optimizer \<noteq> [] \<and>
   objType (data example_optimizer) = MINIMIZE example_env \<and>
   getGlobalBest example_env example_optimizer =
     Inr \<lparr> position = [1], fitness = 3, extra = () \<rparr> \<and>
   swarm (example_optimizer\<lparr>data := example_data\<lparr>objType := 1\<rparr>\<rparr>) \<noteq> [] \<and>
   objType (data (example_optimizer\<lparr>data := example_data\<lparr>objType := 1\<rparr>\<rparr>)) = MAXIMIZE example_env \<and>
   MAXIMIZE example_env \<noteq> MINIMIZE example_env \<and>
   getGlobalBest example_env (example_optimizer\<lparr>data := example_data\<lparr>objType := 1\<rparr>\<rparr>) =
     Inr \<lparr> position = [3], fitness = 7, extra = () \<rparr>"
proof -
  let ?T = "example_optimizer\<lparr>data := example_data\<lparr>objType := 1\<rparr>\<rparr>"
  have sw: "swarm example_optimizer = example_swarm" "swarm ?T = example_swarm"
    by (simp_all add: example_optimizer_def)
  have ne: "swarm example_optimizer \<noteq> []" "swarm ?T \<noteq> []"
    by (simp_all add: sw example_swarm_def)
  have mn: "objType (data example_optimizer) = MINIMIZE example_env"
    by (simp add: example_optimizer_def example_data_def example_env_def)
  have mx: "objType (data ?T) = MAXIMIZE example_env"
    "MAXIMIZE example_env \<noteq> MINIMIZE example_env"
    by (simp_all add: example_env_def)
  from getGlobalBest_first_extremal [OF ne(1), of example_env] mn
  obtain i where i: "i < 5"
      "getGlobalBest example_env example_optimizer = Inr (example_swarm ! i)"
      "\<forall>j<5. fitness (example_swarm ! i) \<le> fitness (example_swarm ! j)"
      "\<forall>j<i. fitness (example_swarm ! i) < fitness (example_swarm ! j)"
    unfolding sw example_swarm_nth(6) by blast
  from i(3) have "fitness (example_swarm ! i) \<le> fitness (example_swarm ! 1)" by simp
  moreover have "i \<noteq> 2"
  proof
    assume "i = 2"
    with i(4) have "fitness (example_swarm ! 2) < fitness (example_swarm ! 1)" by simp
    then show False by (simp add: example_swarm_nth)
  qed
  ultimately have "i = 1"
    using less_5_cases [OF i(1)] by (auto simp: example_swarm_nth)
  with i(2) have r1: "getGlobalBest example_env example_optimizer =
     Inr \<lparr> position = [1], fitness = 3, extra = () \<rparr>"
    by (simp add: example_swarm_nth)
  from getGlobalBest_first_extremal [OF ne(2), of example_env] mx
  obtain k where k: "k < 5"
      "getGlobalBest example_env ?T = Inr (example_swarm ! k)"
      "\<forall>j<5. fitness (example_swarm ! j) \<le> fitness (example_swarm ! k)"
      "\<forall>j<k. fitness (example_swarm ! j) < fitness (example_swarm ! k)"
    unfolding sw example_swarm_nth(6) by blast
  from k(3) have "fitness (example_swarm ! 3) \<le> fitness (example_swarm ! k)" by simp
  moreover have "k \<noteq> 4"
  proof
    assume "k = 4"
    with k(4) have "fitness (example_swarm ! 3) < fitness (example_swarm ! 4)" by simp
    then show False by (simp add: example_swarm_nth)
  qed
  ultimately have "k = 3"
    using less_5_cases [OF k(1)] by (auto simp: example_swarm_nth)
  with k(2) have r2: "getGlobalBest example_env ?T =
     Inr \<lparr> position = [3], fitness = 7, extra = () \<rparr>"
    by (simp add: example_swarm_nth)
  from ne mn mx r1 r2 show ?thesis by simp
qed

section \<open>Unrecognized objective type\<close>

lemma getGlobalBest_unrecognized:
  assumes "objType (data this) \<noteq> MINIMIZE env" and "objType (data this) \<noteq> MAXIMIZE env"
  shows "getGlobalBest env this =
           Inl (Thrown ''NDPSO::getGlobalBest(): unrecognized this->data.objType!'')"
  using assms by (simp add: getGlobalBest_def)

lemma optimize_unrecognized:
  assumes "objType d \<noteq> MINIMIZE env" and "objType d \<noteq> MAXIMIZE env"
  shows "\<exists>this' w'. optimize env this d w =
           Inl (Thrown ''NDPSO::getGlobalBest(): unrecognized this->data.objType!'', this', w')"
proof -
  let ?this2 = "this\<lparr>data := d,
                   comparator := Comparator_setType (comparator (this\<lparr>data := d\<rparr>)) (objType d)\<rparr>"
  obtain this3 x1 where i: "initSwarm env ?this2 (ext w) = (this3, x1)"
    by (cases "initSwarm env ?this2 (ext w)")
  from i have this3: "this3 = fst (initSwarm env ?this2 (ext w))" by simp
  have "data this3 = d"
    unfolding this3 by simp
  with assms have "getGlobalBest env this3 =
      Inl (Thrown ''NDPSO::getGlobalBest(): unrecognized this->data.objType!'')"
    by (simp add: getGlobalBest_unrecognized)
  with i show ?thesis
    by (simp add: optimize_def Let_def)
qed

text \<open>
  Claim C6. With an objective type that is neither MINIMIZE nor MAXIMIZE, global-best
  selection throws its configuration error, whatever the swarm holds; it selects in neither
  direction. The exception is not caught in \<open>optimize\<close>, which ends with it.
\<close>

theorem getGlobalBest_unrecognized_objType:
  assumes "objType d \<noteq> MINIMIZE env" and "objType d \<noteq> MAXIMIZE env"
  shows "getGlobalBest env (this\<lparr>data := d\<rparr>) =
           Inl (Thrown ''NDPSO::getGlobalBest(): unrecognized this->data.objType!'') \<and>
         (\<exists>this' w'. optimize env this d w =
           Inl (Thrown ''NDPSO::getGlobalBest(): unrecognized this->data.objType!'', this', w'))"
  using assms optimize_unrecognized [OF assms, of this w]
  by (simp add: getGlobalBest_unrecognized)

theorem getGlobalBest_unrecognized_objType_witness:
  "objType (example_data\<lparr>objType := 5\<rparr>) \<noteq> MINIMIZE example_env \<and>
   objType (example_data\<lparr>objType := 5\<rparr>) \<noteq> MAXIMIZE example_env \<and>
   getGlobalBest example_env (example_optimizer\<lparr>data := example_data\<lparr>objType := 5\<rparr>\<rparr>) =
     Inl (Thrown ''NDPSO::getGlobalBest(): unrecognized this->data.objType!'') \<and>
   (\<exists>this' w'. optimize example_env example_optimizer (example_data\<lparr>objType := 5\<rparr>) example_world =
     Inl (Thrown ''NDPSO::getGlobalBest(): unrecognized this->data.objType!'', this', w'))"
proof -
  have a: "objType (example_data\<lparr>objType := 5\<rparr>) \<noteq> MINIMIZE example_env"
    and b: "objType (example_data\<lparr>objType := 5\<rparr>) \<noteq> MAXIMIZE example_env"
    by (simp_all add: example_env_def)
  from getGlobalBest_unrecognized_objType [OF a b, of example_optimizer example_world] a b
  show ?thesis by simp
qed

section \<open>Selection on an empty swarm\<close>

lemma getGlobalBest_empty:
  assumes "swarm this = []"
    and "objType (data this) = MINIMIZE env \<or> objType (data this) = MAXIMIZE env"
  shows "getGlobalBest env this = Inl PastTheEndDereference"
  using assms by (auto simp: getGlobalBest_def min_element_def max_element_def deref_def)

lemma optimize_empty_swarm:
  assumes "swarmSize this \<le> 0"
    and "objType d = MINIMIZE env \<or> objType d = MAXIMIZE env"
  shows "\<exists>this' w'. optimize env this d w = Inl (PastTheEndDereference, this', w')"
proof -
  let ?this2 = "this\<lparr>data := d,
                   comparator := Comparator_setType (comparator (this\<lparr>data := d\<rparr>)) (objType d)\<rparr>"
  obtain this3 x1 where i: "initSwarm env ?this2 (ext w) = (this3, x1)"
    by (cases "initSwarm env ?this2 (ext w)")
  from i have this3: "this3 = fst (initSwarm env ?this2 (ext w))" by simp
  have "data this3 = d"
    unfolding this3 by simp
  moreover have "swarm this3 = []"
    using initSwarm_length [of env ?this2 "ext w"] assms(1) unfolding this3 by simp
  ultimately have "getGlobalBest env this3 = Inl PastTheEndDereference"
    using assms(2) by (simp add: getGlobalBest_empty)
  with i show ?thesis
    by (simp add: optimize_def Let_def)
qed

text \<open>
  Claim C7. The claim asks for a descriptive error when the swarm is empty. The code has no
  such check: on an empty swarm with a recognized objective type, \<open>getGlobalBest\<close>
  dereferences the past-the-end iterator that \<^verbatim>\<open>min_element\<close> returns. An optimizer with
  \<open>swarmSize = 0\<close> reaches this in \<open>optimize\<close>, right after \<open>initSwarm\<close>.
\<close>

theorem getGlobalBest_empty_swarm_undefined:
  "getGlobalBest example_env (example_optimizer\<lparr>swarm := []\<rparr>) = Inl PastTheEndDereference \<and>
   (\<exists>this' w'. optimize example_env (example_optimizer\<lparr>swarmSize := 0\<rparr>) example_data example_world =
      Inl (PastTheEndDereference, this', w'))"
proof -
  have "objType (data (example_optimizer\<lparr>swarm := []\<rparr>)) = MINIMIZE example_env"
    by (simp add: example_optimizer_def example_data_def example_env_def)
  then have "getGlobalBest example_env (example_optimizer\<lparr>swarm := []\<rparr>) = Inl PastTheEndDereference"
    by (simp add: getGlobalBest_empty)
  moreover have "objType example_data = MINIMIZE example_env"
    by (simp add: example_data_def example_env_def)
  then have "\<exists>this' w'. optimize example_env (example_optimizer\<lparr>swarmSize := 0\<rparr>) example_data example_world =
      Inl (PastTheEndDereference, this', w')"
    by (intro optimize_empty_swarm) simp_all
  ultimately show ?thesis by simp
qed

section \<open>Objective of a facilities vector\<close>

text \<open>
  Claim C5, as amended. \<open>calcObjective\<close> first derives the customer assignment with the
  assignment strategy and then scores it with the objective strategy, handing both the
  problem's \<^verbatim>\<open>type\<close>; the problem's \<^verbatim>\<open>objType\<close> has no influence on the result. It returns a
  value and changes nothing.
\<close>

theorem calcObjective_composition:
  "calcObjective env this facilities =
     ObjectiveStrategy_calcObjective env (costs (data this))
       (AssignmentStrategy_assign env (costs (data this)) facilities (type (data this)))
       (type (data this)) \<and>
   calcObjective env (this\<lparr>data := (data this)\<lparr>objType := ot\<rparr>\<rparr>) facilities =
     calcObjective env this facilities"
  by (simp add: calcObjective_def)

text \<open>
  Claim C5 as stated has the objective strategy called with \<^verbatim>\<open>objType\<close>. On the example
  problem (\<open>type = 7\<close>, \<open>objType = 0\<close>) the two readings differ.
\<close>

theorem calcObjective_objType_counterexample:
  "calcObjective example_env example_optimizer [1, 2] = 24 \<and>
   calcObjective_with_objType example_env example_optimizer [1, 2] = 17"
  by (simp add: calcObjective_def calcObjective_with_objType_def example_env_def
      example_optimizer_def example_data_def)

section \<open>Size of the initialised swarm\<close>

text \<open>
  Claim C8, as amended. After \<open>initSwarm\<close> the swarm holds exactly \<open>max 0 swarmSize\<close>
  particles (so exactly \<open>swarmSize\<close> whenever that is not negative), whatever the swarm held
  before, and each of them was constructed with \<open>numFacilities\<close> dimensions and a domain of
  \<open>numCustomers\<close> values.
\<close>

theorem initSwarm_swarm_size:
  "int (length (swarm (fst (initSwarm env this x)))) = max 0 (swarmSize this) \<and>
   (\<forall>p\<in>set (swarm (fst (initSwarm env this x))).
      \<exists>t y. p = fst (Particle_new env (numFacilities (data this)) (numCustomers (data this)) t y))"
  using initSwarm_particles [of _ env this x]
  by (auto simp: initSwarm_length)

theorem initSwarm_swarm_size_witness:
  "swarm example_optimizer \<noteq> [] \<and>
   int (length (swarm (fst (initSwarm example_env example_optimizer 0)))) = 3 \<and>
   (\<exists>t y. hd (swarm (fst (initSwarm example_env example_optimizer 0))) =
            fst (Particle_new example_env 2 3 t y))"
proof -
  let ?s = "swarm (fst (initSwarm example_env example_optimizer 0))"
  have s: "swarmSize example_optimizer = 3"
    "numFacilities (data example_optimizer) = 2" "numCustomers (data example_optimizer) = 3"
    by (simp_all add: example_optimizer_def example_data_def)
  note th = initSwarm_swarm_size [of example_env example_optimizer 0, unfolded s]
  from th have len: "int (length ?s) = 3" by simp
  then have "?s \<noteq> []" by auto
  then have "hd ?s \<in> set ?s" by simp
  with th have "\<exists>t y. hd ?s = fst (Particle_new example_env 2 3 t y)" by blast
  moreover have "swarm example_optimizer \<noteq> []"
    by (simp add: example_optimizer_def example_swarm_def)
  ultimately show ?thesis using len by simp
qed

text \<open>
  Claim C8 as stated fails for a negative \<open>swarmSize\<close>, which the constructor accepts: the
  loop of \<open>initSwarm\<close> does not run and the swarm is empty.
\<close>

theorem initSwarm_negative_size_counterexample:
  "swarmSize (example_optimizer\<lparr>swarmSize := - 1\<rparr>) = - 1 \<and>
   length (swarm (fst (initSwarm example_env (example_optimizer\<lparr>swarmSize := - 1\<rparr>) 0))) = 0"
  by (simp add: initSwarm_length)

section \<open>One pass of the loop\<close>

declare iterate.simps [simp del] trials.simps [simp del]

lemma iterate_unfold:
  "iterate env count this gBest uBest w =
     (if count \<le> maxIterations this then
        (case iteration env count this gBest uBest w of
           Inl failure \<Rightarrow> Inl failure
         | Inr (this2, gBest', uBest', w2) \<Rightarrow> iterate env (count + 1) this2 gBest' uBest' w2)
      else Inr (this, gBest, uBest, w))"
  by (subst iterate.simps)
     (simp add: iteration_def Let_def split: prod.splits sum.splits)

lemma updateSwarm_length:
  "length (fst (updateSwarm env this gBest moved todo x)) = length moved + length todo"
  by (induction todo arbitrary: moved x) (auto simp: Let_def split: prod.splits)

text \<open>What one pass changes.\<close>

lemma iteration_Inr:
  assumes "iteration env count this gBest uBest w = Inr (this2, gBest', uBest', w2)"
  shows "this2 = this\<lparr>inertia := fmul (inertia this) (inertialDiscount this), swarm := swarm this2\<rparr>"
    and "length (swarm this2) = length (swarm this)"
    and "getGlobalBest env this2 = Inr gBest'"
    and "\<exists>preferred. Comparator_call env (comparator this) (fitness gBest') (fitness uBest) = Inr preferred
            \<and> uBest' = (if preferred then gBest' else uBest)"
    and "calls w2 = calls w @ [HandleParticle uBest' count]"
proof -
  let ?this1 = "this\<lparr>inertia := fmul (inertia this) (inertialDiscount this)\<rparr>"
  obtain sw x' where u: "updateSwarm env ?this1 gBest [] (swarm this) (ext w) = (sw, x')"
    by (cases "updateSwarm env ?this1 gBest [] (swarm this) (ext w)")
  have len: "length sw = length (swarm this)"
    using updateSwarm_length [of env ?this1 gBest "[]" "swarm this" "ext w"] u by simp
  from assms u obtain g b where g: "getGlobalBest env (?this1\<lparr>swarm := sw\<rparr>) = Inr g"
    and b: "Comparator_call env (comparator this) (fitness g) (fitness uBest) = Inr b"
    by (auto simp: iteration_def Let_def split: sum.splits)
  from assms have r: "this2 = ?this1\<lparr>swarm := sw\<rparr>" "gBest' = g"
    "uBest' = (if b then g else uBest)"
    "w2 = w\<lparr>ext := x', calls := calls w @ [HandleParticle (if b then g else uBest) count]\<rparr>"
    by (auto simp add: iteration_def Let_def u g b)
  show "this2 = this\<lparr>inertia := fmul (inertia this) (inertialDiscount this), swarm := swarm this2\<rparr>"
    by (simp add: r)
  show "length (swarm this2) = length (swarm this)"
    by (simp add: r len)
  show "getGlobalBest env this2 = Inr gBest'"
    by (simp add: r g)
  show "\<exists>preferred. Comparator_call env (comparator this) (fitness gBest') (fitness uBest) = Inr preferred
            \<and> uBest' = (if preferred then gBest' else uBest)"
    by (simp add: r b)
  show "calls w2 = calls w @ [HandleParticle uBest' count]"
    by (simp add: r)
qed



section \<open>The loop of the optimizer\<close>

lemma iterate_stop:
  assumes "\<not> count \<le> maxIterations this"
  shows "iterate env count this gBest uBest w = Inr (this, gBest, uBest, w)"
  using assms by (subst iterate_unfold) simp


lemma iterate_Inr_step:
  assumes "count \<le> maxIterations this"
    and "iterate env count this gBest uBest w = Inr r"
  obtains this2 gBest2 uBest2 w2
  where "iteration env count this gBest uBest w = Inr (this2, gBest2, uBest2, w2)"
    and "iterate env (count + 1) this2 gBest2 uBest2 w2 = Inr r"
proof (cases "iteration env count this gBest uBest w")
  case (Inl failure)
  with assms show ?thesis by (subst (asm) iterate_unfold) simp
next
  case (Inr s)
  obtain this2 gBest2 uBest2 w2 where s: "s = (this2, gBest2, uBest2, w2)"
    by (cases s)
  with assms Inr have "iterate env (count + 1) this2 gBest2 uBest2 w2 = Inr r"
    by (subst (asm) iterate_unfold) simp
  with Inr s that show ?thesis by simp
qed

lemma iteration_maxIterations:
  assumes "iteration env count this gBest uBest w = Inr (this2, gBest2, uBest2, w2)"
  shows "maxIterations this2 = maxIterations this"
  by (subst iteration_Inr(1) [OF assms]) simp

text \<open>
  The loop changes the inertia and the swarm of the optimizer and nothing else, and keeps
  the number of particles.
\<close>

lemma iterate_frame:
  assumes "iterate env count this gBest uBest w = Inr (this', gBest', uBest', w')"
  shows "this' = this\<lparr>inertia := inertia this', swarm := swarm this'\<rparr> \<and>
         length (swarm this') = length (swarm this)"
  using assms
proof (induction "nat (maxIterations this + 1 - count)" arbitrary: count this gBest uBest w)
  case 0
  then have "\<not> count \<le> maxIterations this" by simp
  then have "iterate env count this gBest uBest w = Inr (this, gBest, uBest, w)"
    by (rule iterate_stop)
  with "0.prems" show ?case by simp
next
  case (Suc n)
  then have le: "count \<le> maxIterations this" by simp
  from iterate_Inr_step [OF le Suc.prems]
  obtain this2 gBest2 uBest2 w2
    where it: "iteration env count this gBest uBest w = Inr (this2, gBest2, uBest2, w2)"
      and rest: "iterate env (count + 1) this2 gBest2 uBest2 w2 = Inr (this', gBest', uBest', w')"
    by blast
  have m: "maxIterations this2 = maxIterations this" by (rule iteration_maxIterations [OF it])
  have "n = nat (maxIterations this2 + 1 - (count + 1))" using Suc.hyps(2) m by simp
  from Suc.hyps(1) [OF this rest]
  have ih: "this' = this2\<lparr>inertia := inertia this', swarm := swarm this'\<rparr>"
    "length (swarm this') = length (swarm this2)" by simp_all
  have "this' = this\<lparr>inertia := inertia this', swarm := swarm this'\<rparr>"
    by (subst ih(1), subst iteration_Inr(1) [OF it]) simp
  then show ?case using ih(2) iteration_Inr(2) [OF it] by simp
qed

text \<open>
  The loop reports the all-time best once per pass, numbered from \<open>count\<close> to
  \<open>maxIterations\<close>; along the reports its fitness never gets worse in the direction the
  comparator is configured for.
\<close>

lemma iterate_reports:
  assumes "iterate env count this gBest uBest w = Inr (this', gBest', uBest', w')"
  shows "\<exists>us. calls w' = calls w @ map2 HandleParticle us [count..maxIterations this] \<and>
           length us = nat (maxIterations this + 1 - count) \<and>
           uBest' = last (uBest # us) \<and>
           (cmp_objType (comparator this) = MINIMIZE env \<longrightarrow>
              sorted_wrt (\<lambda>a b. fitness b \<le> fitness a) (uBest # us)) \<and>
           (cmp_objType (comparator this) = MAXIMIZE env \<and> MAXIMIZE env \<noteq> MINIMIZE env \<longrightarrow>
              sorted_wrt (\<lambda>a b. fitness a \<le> fitness b) (uBest # us))"
  using assms
proof (induction "nat (maxIterations this + 1 - count)" arbitrary: count this gBest uBest w)
  case 0
  then have stop: "\<not> count \<le> maxIterations this" by simp
  have "iterate env count this gBest uBest w = Inr (this, gBest, uBest, w)"
    using stop by (rule iterate_stop)
  with "0.prems" have "w' = w" "uBest' = uBest" by simp_all
  with stop show ?case by (intro exI [of _ "[]"]) simp
next
  case (Suc n)
  then have le: "count \<le> maxIterations this" by simp
  from iterate_Inr_step [OF le Suc.prems]
  obtain this2 gBest2 uBest2 w2
    where it: "iteration env count this gBest uBest w = Inr (this2, gBest2, uBest2, w2)"
      and rest: "iterate env (count + 1) this2 gBest2 uBest2 w2 = Inr (this', gBest', uBest', w')"
    by blast
  note step = iteration_Inr [OF it]
  have m: "maxIterations this2 = maxIterations this" by (rule iteration_maxIterations [OF it])
  have c: "comparator this2 = comparator this" by (subst step(1)) simp
  have n: "n = nat (maxIterations this2 + 1 - (count + 1))" using Suc.hyps(2) m by simp
  from Suc.hyps(1) [OF n rest] obtain us
    where us: "calls w' = calls w2 @ map2 HandleParticle us [count + 1..maxIterations this]"
      "length us = nat (maxIterations this - count)"
      "uBest' = last (uBest2 # us)"
      "cmp_objType (comparator this) = MINIMIZE env \<longrightarrow>
         sorted_wrt (\<lambda>a b. fitness b \<le> fitness a) (uBest2 # us)"
      "cmp_objType (comparator this) = MAXIMIZE env \<and> MAXIMIZE env \<noteq> MINIMIZE env \<longrightarrow>
         sorted_wrt (\<lambda>a b. fitness a \<le> fitness b) (uBest2 # us)"
    unfolding m c by auto
  from step(4) obtain preferred
    where p: "Comparator_call env (comparator this) (fitness gBest2) (fitness uBest) = Inr preferred"
      "uBest2 = (if preferred then gBest2 else uBest)" by blast
  have mn: "cmp_objType (comparator this) = MINIMIZE env \<Longrightarrow> fitness uBest2 \<le> fitness uBest"
    using p by (auto simp: Comparator_call_def split: if_splits)
  have mx: "cmp_objType (comparator this) = MAXIMIZE env \<Longrightarrow> MAXIMIZE env \<noteq> MINIMIZE env
      \<Longrightarrow> fitness uBest \<le> fitness uBest2"
    using p by (auto simp: Comparator_call_def split: if_splits)
  have "calls w' = calls w @ map2 HandleParticle (uBest2 # us) [count..maxIterations this]"
    using us(1) step(5) le by (simp add: upto_rec1 [of count])
  moreover have "length (uBest2 # us) = nat (maxIterations this + 1 - count)"
    using us(2) le by simp
  moreover have "uBest' = last (uBest # uBest2 # us)" using us(3) by simp
  moreover have "cmp_objType (comparator this) = MINIMIZE env \<longrightarrow>
      sorted_wrt (\<lambda>a b. fitness b \<le> fitness a) (uBest # uBest2 # us)"
  proof
    assume a: "cmp_objType (comparator this) = MINIMIZE env"
    with us(4) have s: "sorted_wrt (\<lambda>a b. fitness b \<le> fitness a) (uBest2 # us)" by simp
    then have "\<forall>u\<in>set us. fitness u \<le> fitness uBest2" by simp
    with mn [OF a] have "\<forall>u\<in>set (uBest2 # us). fitness u \<le> fitness uBest" by auto
    with s show "sorted_wrt (\<lambda>a b. fitness b \<le> fitness a) (uBest # uBest2 # us)" by simp
  qed
  moreover have "cmp_objType (comparator this) = MAXIMIZE env \<and> MAXIMIZE env \<noteq> MINIMIZE env \<longrightarrow>
      sorted_wrt (\<lambda>a b. fitness a \<le> fitness b) (uBest # uBest2 # us)"
  proof
    assume a: "cmp_objType (comparator this) = MAXIMIZE env \<and> MAXIMIZE env \<noteq> MINIMIZE env"
    with us(5) have s: "sorted_wrt (\<lambda>a b. fitness a \<le> fitness b) (uBest2 # us)" by simp
    then have "\<forall>u\<in>set us. fitness uBest2 \<le> fitness u" by simp
    with mx a have "\<forall>u\<in>set (uBest2 # us). fitness uBest \<le> fitness u" by auto
    with s show "sorted_wrt (\<lambda>a b. fitness a \<le> fitness b) (uBest # uBest2 # us)" by simp
  qed
  ultimately show ?case by blast
qed


section \<open>Runs of the optimizer\<close>

lemma optimize_unfold:
  "optimize env this d w =
     (case optimize_setup env this d (ext w) of (this3, x1) \<Rightarrow>
        (case getGlobalBest env this3 of
           Inl e \<Rightarrow> Inl (e, this3, w\<lparr>ext := x1\<rparr>)
         | Inr gBest \<Rightarrow>
            (case clock env x1 of (t0, x2) \<Rightarrow>
               (case iterate env 1 (this3\<lparr>inertia := initialInertia this3\<rparr>) gBest gBest
                       (w\<lparr>ext := x2\<rparr>) of
                  Inl failure \<Rightarrow> Inl failure
                | Inr (this5, gBest', uBest', w3) \<Rightarrow>
                   (case clock env (ext w3) of (t1, x4) \<Rightarrow>
                      Inr (\<lparr> res_time = fdiv (to_float (of_int (t1 - t0)))
                                           (to_float (of_int (CLOCKS_PER_SEC env))),
                              res_fitness = fitness uBest',
                              res_position = position uBest',
                              res_customerAssignments =
                                Particle_getCustomerAssignments env this5 uBest',
                              res_type = type d,
                              res_objType = objType d \<rparr>,
                           this5, w3\<lparr>ext := x4\<rparr>))))))"
  by (simp add: optimize_def optimize_setup_def Let_def split: prod.splits sum.splits)

lemma optimize_setup_frame:
  "fst (optimize_setup env this d x) =
     this\<lparr>data := d, comparator := Comparator_setType (comparator this) (objType d),
          swarm := swarm (fst (optimize_setup env this d x))\<rparr>"
  unfolding optimize_setup_def by (subst initSwarm_frame) simp


lemma optimize_Inr:
  assumes "optimize env this d w = Inr (r, this', w')"
  obtains this3 x1 gBest0 t0 x2 gBest' uBest' w3 t1 x4
  where "optimize_setup env this d (ext w) = (this3, x1)"
    and "getGlobalBest env this3 = Inr gBest0"
    and "clock env x1 = (t0, x2)"
    and "iterate env 1 (this3\<lparr>inertia := initialInertia this3\<rparr>) gBest0 gBest0 (w\<lparr>ext := x2\<rparr>)
           = Inr (this', gBest', uBest', w3)"
    and "clock env (ext w3) = (t1, x4)"
    and "r = \<lparr> res_time = fdiv (to_float (of_int (t1 - t0)))
                                (to_float (of_int (CLOCKS_PER_SEC env))),
               res_fitness = fitness uBest',
               res_position = position uBest',
               res_customerAssignments = Particle_getCustomerAssignments env this' uBest',
               res_type = type d,
               res_objType = objType d \<rparr>"
    and "w' = w3\<lparr>ext := x4\<rparr>"
  using assms unfolding optimize_unfold
  by (auto split: prod.splits sum.splits)




text \<open>What a run that returns leaves behind.\<close>

lemma optimize_reports:
  assumes "optimize env this d w = Inr (r, this', w')"
  shows "\<exists>gBest0 us.
     getGlobalBest env (fst (optimize_setup env this d (ext w))) = Inr gBest0 \<and>
     calls w' = calls w @ map2 HandleParticle us [1..maxIterations this] \<and>
     length us = nat (maxIterations this) \<and>
     res_fitness r = fitness (last (gBest0 # us)) \<and>
     res_position r = position (last (gBest0 # us)) \<and>
     (objType d = MINIMIZE env \<longrightarrow>
        sorted_wrt (\<lambda>a b. fitness b \<le> fitness a) (gBest0 # us)) \<and>
     (objType d = MAXIMIZE env \<and> MAXIMIZE env \<noteq> MINIMIZE env \<longrightarrow>
        sorted_wrt (\<lambda>a b. fitness a \<le> fitness b) (gBest0 # us))"
proof -
  from optimize_Inr [OF assms]
  obtain this3 x1 gBest0 t0 x2 gBest' uBest' w3 t1 x4
    where s: "optimize_setup env this d (ext w) = (this3, x1)"
      and g: "getGlobalBest env this3 = Inr gBest0"
      and i: "iterate env 1 (this3\<lparr>inertia := initialInertia this3\<rparr>) gBest0 gBest0 (w\<lparr>ext := x2\<rparr>)
           = Inr (this', gBest', uBest', w3)"
      and r: "res_fitness r = fitness uBest'" "res_position r = position uBest'"
      and w': "w' = w3\<lparr>ext := x4\<rparr>"
    by (metis problemResults.select_convs(2,3))
  from s have this3: "this3 = fst (optimize_setup env this d (ext w))" by simp
  have fr: "this3 = this\<lparr>data := d,
      comparator := Comparator_setType (comparator this) (objType d), swarm := swarm this3\<rparr>"
    unfolding this3 by (rule optimize_setup_frame)
  have m: "maxIterations (this3\<lparr>inertia := initialInertia this3\<rparr>) = maxIterations this"
    by (subst fr) simp
  have c: "cmp_objType (comparator (this3\<lparr>inertia := initialInertia this3\<rparr>)) = objType d"
    by (subst fr) (simp add: Comparator_setType_def)
  from iterate_reports [OF i, unfolded m c] obtain us
    where us: "calls w3 = calls w @ map2 HandleParticle us [1..maxIterations this]"
      "length us = nat (maxIterations this)"
      "uBest' = last (gBest0 # us)"
      "objType d = MINIMIZE env \<longrightarrow> sorted_wrt (\<lambda>a b. fitness b \<le> fitness a) (gBest0 # us)"
      "objType d = MAXIMIZE env \<and> MAXIMIZE env \<noteq> MINIMIZE env \<longrightarrow>
         sorted_wrt (\<lambda>a b. fitness a \<le> fitness b) (gBest0 # us)"
    by auto
  have "getGlobalBest env (fst (optimize_setup env this d (ext w))) = Inr gBest0"
    using g this3 by simp
  moreover have "calls w' = calls w @ map2 HandleParticle us [1..maxIterations this]"
    using us(1) w' by simp
  moreover have "res_fitness r = fitness (last (gBest0 # us))"
    "res_position r = position (last (gBest0 # us))"
    using r us(3) by simp_all
  ultimately show ?thesis using us(2,4,5) by blast
qed

lemma optimize_frame:
  assumes "optimize env this d w = Inr (r, this', w')"
  shows "this' = this\<lparr>data := d,
           comparator := Comparator_setType (comparator this) (objType d),
           inertia := inertia this', swarm := swarm this'\<rparr>"
proof -
  from optimize_Inr [OF assms]
  obtain this3 x1 gBest0 x2 gBest' uBest' w3
    where s: "optimize_setup env this d (ext w) = (this3, x1)"
      and i: "iterate env 1 (this3\<lparr>inertia := initialInertia this3\<rparr>) gBest0 gBest0 (w\<lparr>ext := x2\<rparr>)
           = Inr (this', gBest', uBest', w3)"
    by metis
  from s have this3: "this3 = fst (optimize_setup env this d (ext w))" by simp
  have fr: "this3 = this\<lparr>data := d,
      comparator := Comparator_setType (comparator this) (objType d), swarm := swarm this3\<rparr>"
    unfolding this3 by (rule optimize_setup_frame)
  from iterate_frame [OF i]
  have "this' = this3\<lparr>inertia := inertia this', swarm := swarm this'\<rparr>" by simp
  then show ?thesis by (subst (asm) fr) simp
qed

lemma optimize_customerAssignments:
  assumes "optimize env this d w = Inr (r, this', w')"
  shows "res_customerAssignments r =
           AssignmentStrategy_assign env (costs d) (res_position r) (type d)"
proof -
  have "data this' = d" by (subst optimize_frame [OF assms]) simp
  moreover from optimize_Inr [OF assms] obtain uBest'
    where "res_customerAssignments r = Particle_getCustomerAssignments env this' uBest'"
      "res_position r = position uBest'"
    by (metis problemResults.select_convs(3,4))
  ultimately show ?thesis by (simp add: Particle_getCustomerAssignments_def)
qed

section \<open>Result consistency\<close>

lemma example_run_returns:
  "\<not> isl (optimize example_env example_optimizer example_data example_world)"
  by code_simp

lemma example_run_results:
  "res_fitness (fst (projr (optimize example_env example_optimizer example_data example_world))) = - 2"
  "res_position (fst (projr (optimize example_env example_optimizer example_data example_world))) = [0, 0]"
  "res_customerAssignments (fst (projr (optimize example_env example_optimizer example_data example_world)))
     = [7, 7]"
  by code_simp+

lemma example_run_maximize_returns:
  "\<not> isl (optimize example_env example_optimizer (example_data\<lparr>objType := 1\<rparr>) example_world)"
  by code_simp

lemma example_run_maximize_results:
  "res_fitness (fst (projr (optimize example_env example_optimizer (example_data\<lparr>objType := 1\<rparr>)
      example_world))) = 6"
  by code_simp

lemma not_isl_Inr:
  assumes "\<not> isl x"
  obtains r this' w' where "x = Inr (r, this', w')"
  using assms by (cases x) auto

text \<open>
  Claim C4. The customer assignments of the results of a completed run are what the
  assignment strategy computes from the problem's costs, the best position the results
  carry, and the problem's type.
\<close>

theorem results_customerAssignments_recomputed:
  assumes "optimize env this d w = Inr (r, this', w')"
  shows "res_customerAssignments r =
           AssignmentStrategy_assign env (costs d) (res_position r) (type d)"
  using assms by (rule optimize_customerAssignments)

theorem results_customerAssignments_recomputed_witness:
  "\<exists>r this' w'.
     optimize example_env example_optimizer example_data example_world = Inr (r, this', w') \<and>
     res_position r = [0, 0] \<and> res_customerAssignments r = [7, 7] \<and>
     res_customerAssignments r =
       AssignmentStrategy_assign example_env (costs example_data) (res_position r) (type example_data)"
proof -
  from example_run_returns obtain r this' w'
    where eq: "optimize example_env example_optimizer example_data example_world = Inr (r, this', w')"
    by (rule not_isl_Inr)
  from example_run_results have "res_position r = [0, 0]" "res_customerAssignments r = [7, 7]"
    by (simp_all add: eq)
  with eq results_customerAssignments_recomputed [OF eq] show ?thesis by blast
qed

section \<open>Monotone all-time best\<close>

text \<open>
  Claim C3. In a run of \<open>optimize\<close> that returns, the listener is told the all-time best
  after every iteration; starting from the initial global best, the fitness of the all-time
  best never increases from one iteration to the next when the objective type is MINIMIZE
  and never decreases when it is MAXIMIZE, and the results carry the last of these values.
\<close>

theorem uBest_fitness_monotone:
  assumes "optimize env this d w = Inr (r, this', w')"
  shows "\<exists>gBest0 us.
     getGlobalBest env (fst (optimize_setup env this d (ext w))) = Inr gBest0 \<and>
     calls w' = calls w @ map2 HandleParticle us [1..maxIterations this] \<and>
     length us = nat (maxIterations this) \<and>
     res_fitness r = fitness (last (gBest0 # us)) \<and>
     (objType d = MINIMIZE env \<longrightarrow>
        sorted_wrt (\<lambda>a b. fitness b \<le> fitness a) (gBest0 # us)) \<and>
     (objType d = MAXIMIZE env \<and> MAXIMIZE env \<noteq> MINIMIZE env \<longrightarrow>
        sorted_wrt (\<lambda>a b. fitness a \<le> fitness b) (gBest0 # us))"
  using optimize_reports [OF assms] by blast

theorem uBest_fitness_monotone_witness:
  "objType example_data = MINIMIZE example_env \<and>
   (\<exists>r this' w' gBest0 us.
      optimize example_env example_optimizer example_data example_world = Inr (r, this', w') \<and>
      calls w' = calls example_world @ map2 HandleParticle us [1..maxIterations example_optimizer] \<and>
      res_fitness r = - 2 \<and> res_fitness r = fitness (last (gBest0 # us)) \<and>
      sorted_wrt (\<lambda>a b. fitness b \<le> fitness a) (gBest0 # us)) \<and>
   objType (example_data\<lparr>objType := 1\<rparr>) = MAXIMIZE example_env \<and>
   MAXIMIZE example_env \<noteq> MINIMIZE example_env \<and>
   (\<exists>r this' w' gBest0 us.
      optimize example_env example_optimizer (example_data\<lparr>objType := 1\<rparr>) example_world
        = Inr (r, this', w') \<and>
      calls w' = calls example_world @ map2 HandleParticle us [1..maxIterations example_optimizer] \<and>
      res_fitness r = 6 \<and> res_fitness r = fitness (last (gBest0 # us)) \<and>
      sorted_wrt (\<lambda>a b. fitness a \<le> fitness b) (gBest0 # us))"
proof -
  have mn: "objType example_data = MINIMIZE example_env"
    by (simp add: example_data_def example_env_def)
  have mx: "objType (example_data\<lparr>objType := 1\<rparr>) = MAXIMIZE example_env"
    "MAXIMIZE example_env \<noteq> MINIMIZE example_env"
    by (simp_all add: example_env_def)
  from example_run_returns obtain r this' w'
    where eq: "optimize example_env example_optimizer example_data example_world = Inr (r, this', w')"
    by (rule not_isl_Inr)
  from example_run_results(1) have f: "res_fitness r = - 2" by (simp add: eq)
  from uBest_fitness_monotone [OF eq] mn f eq
  have a: "\<exists>r this' w' gBest0 us.
      optimize example_env example_optimizer example_data example_world = Inr (r, this', w') \<and>
      calls w' = calls example_world @ map2 HandleParticle us [1..maxIterations example_optimizer] \<and>
      res_fitness r = - 2 \<and> res_fitness r = fitness (last (gBest0 # us)) \<and>
      sorted_wrt (\<lambda>a b. fitness b \<le> fitness a) (gBest0 # us)"
    by blast
  from example_run_maximize_returns obtain r2 this2 w2
    where eq2: "optimize example_env example_optimizer (example_data\<lparr>objType := 1\<rparr>) example_world
       = Inr (r2, this2, w2)"
    by (rule not_isl_Inr)
  from example_run_maximize_results have f2: "res_fitness r2 = 6" by (simp add: eq2)
  from uBest_fitness_monotone [OF eq2] mx f2 eq2
  have b: "\<exists>r this' w' gBest0 us.
      optimize example_env example_optimizer (example_data\<lparr>objType := 1\<rparr>) example_world
        = Inr (r, this', w') \<and>
      calls w' = calls example_world @ map2 HandleParticle us [1..maxIterations example_optimizer] \<and>
      res_fitness r = 6 \<and> res_fitness r = fitness (last (gBest0 # us)) \<and>
      sorted_wrt (\<lambda>a b. fitness a \<le> fitness b) (gBest0 # us)"
    by blast
  from mn mx a b show ?thesis by blast
qed

section \<open>No iterations\<close>





section \<open>Inertia decay\<close>


lemma decay_by_exact: "decay_by (*) v d k = v * d ^ k"
  by (induction k) (simp_all add: decay_by_def)







text \<open>
  On the example optimizer (\<open>initialInertia = 1/2\<close>, \<open>inertialDiscount = 3/4\<close>, two passes, called
  with a stale inertia of \<open>1/4\<close>) the products are exact.
\<close>

lemma example_decay:
  "decayed example_optimizer 2 = 9 / 32"
  "initialInertia example_optimizer * inertialDiscount example_optimizer ^ 2 = 9 / 32"
  "inertia (fst (snd (projr (optimize example_env example_optimizer example_data example_world))))
     = 9 / 32"
  by code_simp+

section \<open>The parameter sweep\<close>


subsection \<open>The values the loop variable takes\<close>










subsection \<open>The outline of a call log\<close>

lemma outline_append [simp]: "outline (xs @ ys) = outline xs @ outline ys"
  by (simp add: outline_def)

lemma outline_Nil [simp]: "outline [] = []"
  by (simp add: outline_def)

lemma outline_Cons [simp]: "outline (c # cs) = outline_of c @ outline cs"
  by (simp add: outline_def)


subsection \<open>Loops over a list of values\<close>


subsection \<open>Trials\<close>



subsection \<open>The settings under which the trials of the sweep run\<close>










subsection \<open>The three nested loops\<close>





subsection \<open>A sweep on an unrecognized objective type\<close>




subsection \<open>Coverage of the grid\<close>




end
